theory Spec2Isabelle
  imports Complex_Main "HOL-Library.Sublist" "HOL-Library.Word" "HOL-Library.Log_Nat"
begin

section \<open>JavaScript values and built-ins the program uses\<close>

text \<open>
  A string is its sequence of UTF-16 code units. A \<open>Date\<close> is its time value, the whole
  milliseconds since the epoch. A \<open>number\<close> is the \<^typ>\<open>real\<close> it denotes: every id of
  the program is the sum of a clock reading and a value in [0, 1), so NaN and the
  infinities do not arise; the sum is rounded as the binary64 addition rounds it.
\<close>

type_synonym JSString = "16 word list"

type_synonym Date = int

definition str :: "string \<Rightarrow> JSString" where
  \<comment> \<open>the string whose text is a given ASCII literal\<close>
  "str s = map (\<lambda>c. of_nat (of_char c)) s"

definition truthy :: "JSString \<Rightarrow> bool" where
  \<comment> \<open>a string in a condition: the empty string is falsy, every other one truthy\<close>
  "truthy s = (s \<noteq> [])"

definition js_or :: "JSString option \<Rightarrow> JSString \<Rightarrow> JSString" where
  \<comment> \<open>\<open>a || b\<close> for \<open>a\<close> a string or \<open>undefined\<close> (\<open>None\<close>)\<close>
  "js_or a b = (case a of None \<Rightarrow> b | Some s \<Rightarrow> if truthy s then s else b)"

definition default_arg :: "JSString option \<Rightarrow> JSString \<Rightarrow> JSString" where
  \<comment> \<open>a parameter \<open>p: string = b\<close>: the default is taken when the argument is \<open>undefined\<close>\<close>
  "default_arg a b = (case a of None \<Rightarrow> b | Some s \<Rightarrow> s)"


definition isWhiteSpace :: "16 word \<Rightarrow> bool" where
  \<comment> \<open>the code units \<open>String.prototype.trim\<close> strips: WhiteSpace (TAB, VT, FF, U+FEFF and
      the space separators of Unicode) and LineTerminator (LF, CR, U+2028, U+2029)\<close>
  "isWhiteSpace u =
     (u \<in> {0x0009, 0x000A, 0x000B, 0x000C, 0x000D, 0x0020, 0x00A0, 0x1680,
            0x2000, 0x2001, 0x2002, 0x2003, 0x2004, 0x2005, 0x2006, 0x2007, 0x2008,
            0x2009, 0x200A, 0x2028, 0x2029, 0x202F, 0x205F, 0x3000, 0xFEFF})"

definition trim :: "JSString \<Rightarrow> JSString" where
  "trim s = rev (dropWhile isWhiteSpace (rev (dropWhile isWhiteSpace s)))"

fun js_includes :: "JSString \<Rightarrow> JSString \<Rightarrow> bool" where
  \<comment> \<open>\<open>s.includes(t)\<close>, written \<open>js_includes s t\<close>: \<open>t\<close> occurs in \<open>s\<close> at some position\<close>
  "js_includes [] t = (t = [])"
| "js_includes (x # xs) t = (take (length t) (x # xs) = t \<or> js_includes xs t)"

fun findIndex :: "('a \<Rightarrow> bool) \<Rightarrow> 'a list \<Rightarrow> nat option" where
  \<comment> \<open>\<open>Array.prototype.findIndex\<close>; \<open>None\<close> is the result -1\<close>
  "findIndex P [] = None"
| "findIndex P (x # xs) = (if P x then Some 0 else map_option Suc (findIndex P xs))"

definition splice1 :: "nat \<Rightarrow> 'a list \<Rightarrow> 'a list" where
  \<comment> \<open>the array after \<open>splice(index, 1)\<close>\<close>
  "splice1 index xs = take index xs @ drop (Suc index) xs"

fun mutate_found :: "('a \<Rightarrow> bool) \<Rightarrow> ('a \<Rightarrow> 'a) \<Rightarrow> 'a list \<Rightarrow> 'a list" where
  \<comment> \<open>the array after the object that \<open>find\<close> returns (the first element satisfying
      the predicate) has been mutated in place\<close>
  "mutate_found P f [] = []"
| "mutate_found P f (x # xs) = (if P x then f x # xs else x # mutate_found P f xs)"


subsection \<open>The addition of numbers\<close>

text \<open>
  \<open>a + b\<close> on numbers is the binary64 addition: the exact sum, rounded to the nearest
  number with 53 significant bits, a tie going to the even one. The exponent range is
  taken as unbounded: overflow and subnormal results do not arise for the sum of a time
  value and a value in [0, 1).
\<close>

definition pow2 :: "int \<Rightarrow> real" where
  "pow2 e = (if 0 \<le> e then 2 ^ nat e else 1 / 2 ^ nat (- e))"

definition exponent :: "real \<Rightarrow> int" where
  \<comment> \<open>for \<open>x > 0\<close>, the \<open>e\<close> with \<open>2\<^sup>e \<le> x < 2\<^sup>e\<^sup>+\<^sup>1\<close>\<close>
  "exponent x =
     (if 1 \<le> x then bitlen \<lfloor>x\<rfloor> - 1
      else (let k = bitlen \<lfloor>1 / x\<rfloor>
            in if x * 2 ^ nat (k - 1) = 1 then 1 - k else - k))"

definition roundTiesToEven :: "real \<Rightarrow> int" where
  "roundTiesToEven y =
     (let f = \<lfloor>y\<rfloor>; r = y - of_int f
      in if r < 1 / 2 then f else if 1 / 2 < r then f + 1 else if even f then f else f + 1)"

definition binary64 :: "real \<Rightarrow> real" where
  "binary64 x =
     (if x = 0 then 0
      else (let u = pow2 (exponent \<bar>x\<bar> - 52)
            in sgn x * of_int (roundTiesToEven (\<bar>x\<bar> / u)) * u))"

definition number_add :: "real \<Rightarrow> real \<Rightarrow> real" where
  "number_add a b = binary64 (a + b)"


subsection \<open>Case conversion\<close>

text \<open>
  \<open>toLowerCase\<close> and \<open>toUpperCase\<close> convert by the Unicode case mappings of the engine
  that runs the program. These tables are parameters: \<open>toLowerCase\<close> as a function on
  strings (it depends on context, for the final sigma), and for \<open>toUpperCase\<close> the
  uppercase mapping of one code point, given as the UTF-16 text of the result (which may
  be several characters, as SS for U+00DF). \<open>toUpperCase\<close> reads the string as code
  points, a high surrogate followed by a low surrogate being one code point and any
  other surrogate a code point of its own, and maps each of them.
\<close>

record Engine =
  toLowerCase :: "JSString \<Rightarrow> JSString"
  Uppercase_Mapping :: "int \<Rightarrow> JSString"





definition conforming :: "Engine \<Rightarrow> bool" where
  \<comment> \<open>what is used of \<open>toLowerCase\<close>: the result is empty exactly for the empty string
      (no character lowercases to nothing)\<close>
  "conforming js = (\<forall>s. (toLowerCase js s = []) = (s = []))"


section \<open>The data model\<close>

text \<open>\<open>interface ContactFormData\<close>; an optional field that is absent is \<open>None\<close>.\<close>

record ContactFormData =
  firstName :: JSString
  lastName :: JSString
  userName :: JSString
  phone :: JSString
  email :: "JSString option"
  address :: "JSString option"

text \<open>
  \<open>Partial<ContactFormData>\<close>, the parameter of \<open>Contact.update\<close>: every field optional.
  \<open>updateContact\<close> hands its argument to \<open>update\<close> unchanged, so it is given the same
  type here; a full \<open>ContactFormData\<close> is the case where the four required fields are
  present.
\<close>

record PartialContactFormData =
  firstName :: "JSString option"
  lastName :: "JSString option"
  userName :: "JSString option"
  phone :: "JSString option"
  email :: "JSString option"
  address :: "JSString option"

text \<open>
  One element of the array that \<open>JSON.parse\<close> returns for the stored snapshot
  (\<open>data: any\<close> in \<open>loadContacts\<close>), in the shape of \<open>interface IContact\<close>:
  \<open>email\<close> and \<open>address\<close> are optional there, and \<open>loadContacts\<close> also guards a missing
  \<open>userName\<close>. The storage slot holds JSON text; the model keeps the values that text
  denotes: a number for its decimal text, a string for its quoted text, and for
  \<open>createdAt\<close> the time value of the ISO-8601 string that \<open>Date.prototype.toJSON\<close>
  writes and \<open>new Date(string)\<close> reads back.
\<close>

record ContactData =
  id' :: real
  firstName :: JSString
  lastName :: JSString
  userName :: "JSString option"
  phone :: JSString
  email :: "JSString option"
  address :: "JSString option"
  createdAt :: Date

text \<open>\<open>class Contact\<close>. The field \<open>id\<close> is written \<open>id'\<close>.\<close>

record Contact =
  id' :: real
  firstName :: JSString
  lastName :: JSString
  userName :: JSString
  phone :: JSString
  email :: JSString
  address :: JSString
  createdAt :: Date

text \<open>
  What one run of the constructor reads from its environment: \<open>Date.now()\<close>,
  \<open>Math.random()\<close> and the time value of \<open>new Date()\<close>.
\<close>

record Readings =
  Date_now :: real
  Math_random :: real
  new_Date :: Date

text \<open>
  \<open>class ContactManager\<close>, together with the item \<open>'contacts'\<close> of \<open>localStorage\<close>
  (\<open>None\<close> when \<open>getItem\<close> returns \<open>null\<close>). The arrays hold references to
  \<open>Contact\<close> objects; the only in-place mutation of an object is in \<open>updateContact\<close>,
  which replaces \<open>filteredContacts\<close> by a fresh copy of \<open>contacts\<close> in the same call, so
  lists of record values describe both arrays. \<open>setItem\<close> is taken to succeed, and the
  rendering (\<open>render\<close>, \<open>renderContacts\<close>, \<open>updateStats\<close>) changes the page only.
\<close>

record ContactManager =
  contacts :: "Contact list"
  currentEditId :: "real option"
  filteredContacts :: "Contact list"
  localStorage :: "ContactData list option"


section \<open>Contact\<close>

definition new_Contact ::
  "Readings \<Rightarrow> JSString \<Rightarrow> JSString \<Rightarrow> JSString \<Rightarrow> JSString \<Rightarrow>
     JSString option \<Rightarrow> JSString option \<Rightarrow> Contact"
where
  "new_Contact env fname lname uname ph em ad =
     \<lparr> id' = number_add (Date_now env) (Math_random env),
       firstName = fname,
       lastName = lname,
       userName = uname,
       phone = ph,
       email = default_arg em [],
       address = default_arg ad [],
       createdAt = new_Date env \<rparr>"

definition getFullName :: "Contact \<Rightarrow> JSString" where
  "getFullName c = firstName c @ str '' '' @ lastName c"


definition update :: "Contact \<Rightarrow> PartialContactFormData \<Rightarrow> Contact" where
  "update c d =
     c\<lparr> firstName := js_or (PartialContactFormData.firstName d) (firstName c),
        lastName := js_or (PartialContactFormData.lastName d) (lastName c),
        userName := js_or (PartialContactFormData.userName d) (userName c),
        phone := js_or (PartialContactFormData.phone d) (phone c),
        email := js_or (PartialContactFormData.email d) (email c),
        address := js_or (PartialContactFormData.address d) (address c) \<rparr>"

section \<open>ContactManager\<close>

definition toJSON :: "Contact \<Rightarrow> ContactData" where
  \<comment> \<open>what \<open>JSON.parse\<close> returns for the text \<open>JSON.stringify\<close> writes for one contact:
      its eight own properties\<close>
  "toJSON c =
     \<lparr> ContactData.id' = id' c,
       ContactData.firstName = firstName c,
       ContactData.lastName = lastName c,
       ContactData.userName = Some (userName c),
       ContactData.phone = phone c,
       ContactData.email = Some (email c),
       ContactData.address = Some (address c),
       ContactData.createdAt = createdAt c \<rparr>"

definition saveToStorage :: "ContactManager \<Rightarrow> ContactManager" where
  "saveToStorage m = m\<lparr> localStorage := Some (map toJSON (contacts m)) \<rparr>"

definition fromJSON :: "Readings \<Rightarrow> ContactData \<Rightarrow> Contact" where
  \<comment> \<open>the callback of \<open>contactsData.map\<close> in \<open>loadContacts\<close>\<close>
  "fromJSON env data =
     (let contact = new_Contact env
            (ContactData.firstName data)
            (ContactData.lastName data)
            (js_or (ContactData.userName data) [])
            (ContactData.phone data)
            (ContactData.email data)
            (ContactData.address data);
          contact = contact\<lparr> id' := ContactData.id' data \<rparr>;
          contact = contact\<lparr> createdAt := ContactData.createdAt data \<rparr>
      in contact)"

definition loadContacts :: "(nat \<Rightarrow> Readings) \<Rightarrow> ContactManager \<Rightarrow> ContactManager" where
  \<comment> \<open>\<open>envs i\<close> is what the constructor reads when it builds element \<open>i\<close>. The stored
      text of an array is never the empty string, so \<open>if (stored)\<close> tests for \<open>null\<close>.\<close>
  "loadContacts envs m =
     (let m = (case localStorage m of
                 Some contactsData \<Rightarrow>
                   m\<lparr> contacts := map (\<lambda>(i, data). fromJSON (envs i) data)
                                    (enumerate 0 contactsData) \<rparr>
               | None \<Rightarrow> m)
      in m\<lparr> filteredContacts := contacts m \<rparr>)"

definition ContactManager_fields :: "ContactData list option \<Rightarrow> ContactManager" where
  \<comment> \<open>the field initialisers of the class, over a given storage\<close>
  "ContactManager_fields stored =
     \<lparr> contacts = [], currentEditId = None, filteredContacts = [], localStorage = stored \<rparr>"

definition init :: "(nat \<Rightarrow> Readings) \<Rightarrow> ContactData list option \<Rightarrow> ContactManager" where
  \<comment> \<open>\<open>new ContactManager()\<close>: the constructor runs \<open>init\<close> (at once, or on
      \<open>DOMContentLoaded\<close> while the page is loading), which loads the snapshot\<close>
  "init envs stored = loadContacts envs (ContactManager_fields stored)"

definition addContact ::
  "Readings \<Rightarrow> ContactManager \<Rightarrow> ContactFormData \<Rightarrow> ContactManager \<times> Contact"
where
  "addContact env m contactData =
     (let contact = new_Contact env
            (ContactFormData.firstName contactData)
            (ContactFormData.lastName contactData)
            (ContactFormData.userName contactData)
            (ContactFormData.phone contactData)
            (Some (js_or (ContactFormData.email contactData) []))
            (Some (js_or (ContactFormData.address contactData) []));
          m = m\<lparr> contacts := contacts m @ [contact] \<rparr>;
          m = m\<lparr> filteredContacts := contacts m \<rparr>;
          m = saveToStorage m
      in (m, contact))"

definition updateContact ::
  "ContactManager \<Rightarrow> real \<Rightarrow> PartialContactFormData \<Rightarrow> ContactManager \<times> Contact option"
where
  \<comment> \<open>\<open>None\<close> is the result \<open>null\<close>\<close>
  "updateContact m i contactData =
     (case find (\<lambda>c. id' c = i) (contacts m) of
        Some contact \<Rightarrow>
          (let m = m\<lparr> contacts :=
                      mutate_found (\<lambda>c. id' c = i) (\<lambda>c. update c contactData) (contacts m) \<rparr>;
               m = m\<lparr> filteredContacts := contacts m \<rparr>;
               m = saveToStorage m
           in (m, Some (update contact contactData)))
      | None \<Rightarrow> (m, None))"

definition deleteContact :: "ContactManager \<Rightarrow> real \<Rightarrow> ContactManager \<times> bool" where
  "deleteContact m i =
     (case findIndex (\<lambda>c. id' c = i) (contacts m) of
        Some index \<Rightarrow>
          (let m = m\<lparr> contacts := splice1 index (contacts m) \<rparr>;
               m = m\<lparr> filteredContacts := contacts m \<rparr>;
               m = saveToStorage m
           in (m, True))
      | None \<Rightarrow> (m, False))"

definition matches :: "Engine \<Rightarrow> JSString \<Rightarrow> Contact \<Rightarrow> bool" where
  \<comment> \<open>the callback of \<open>contacts.filter\<close> in \<open>searchContacts\<close>\<close>
  "matches js searchTerm contact =
     (js_includes (toLowerCase js (firstName contact)) searchTerm \<or>
      js_includes (toLowerCase js (lastName contact)) searchTerm \<or>
      js_includes (toLowerCase js (userName contact)) searchTerm \<or>
      js_includes (phone contact) searchTerm \<or>
      (truthy (email contact) \<and> js_includes (toLowerCase js (email contact)) searchTerm))"

definition searchContacts :: "Engine \<Rightarrow> ContactManager \<Rightarrow> JSString \<Rightarrow> ContactManager" where
  "searchContacts js m query =
     (if \<not> truthy (trim query) then m\<lparr> filteredContacts := contacts m \<rparr>
      else (let searchTerm = toLowerCase js query
            in m\<lparr> filteredContacts := filter (matches js searchTerm) (contacts m) \<rparr>))"

definition getCount :: "ContactManager \<Rightarrow> nat" where
  \<comment> \<open>Modelled from the spec: \<open>getCount() -> integer\<close>, the size of the full collection.
      The source has no method of this name; \<open>updateStats\<close> displays
      \<open>this.contacts.length\<close>.\<close>
  "getCount m = length (contacts m)"


section \<open>Sequences of operations\<close>

fun addContacts ::
  "ContactManager \<Rightarrow> (Readings \<times> ContactFormData) list \<Rightarrow> ContactManager \<times> Contact list"
where
  \<comment> \<open>one \<open>addContact\<close> call after the other; the records returned, in call order\<close>
  "addContacts m [] = (m, [])"
| "addContacts m ((env, contactData) # rest) =
     (let (m, contact) = addContact env m contactData;
          (m, added) = addContacts m rest
      in (m, contact # added))"

text \<open>
  The operations that change or read the store, and a restart of the page: a new
  \<open>ContactManager\<close> is constructed over the storage the last one left.
\<close>

datatype operation =
    Add Readings ContactFormData
  | Update real PartialContactFormData
  | Delete real
  | Search JSString
  | Restart "nat \<Rightarrow> Readings"

fun step :: "Engine \<Rightarrow> ContactManager \<Rightarrow> operation \<Rightarrow> ContactManager" where
  "step js m (Add env contactData) = fst (addContact env m contactData)"
| "step js m (Update i contactData) = fst (updateContact m i contactData)"
| "step js m (Delete i) = fst (deleteContact m i)"
| "step js m (Search query) = searchContacts js m query"
| "step js m (Restart envs) = init envs (localStorage m)"

fun run :: "Engine \<Rightarrow> ContactManager \<Rightarrow> operation list \<Rightarrow> ContactManager" where
  "run js m [] = m"
| "run js m (op # ops) = run js (step js m op) ops"

fun is_add :: "operation \<Rightarrow> bool" where
  "is_add (Add env contactData) = True"
| "is_add _ = False"

fun is_delete :: "operation \<Rightarrow> bool" where
  "is_delete (Delete i) = True"
| "is_delete _ = False"

definition no_deletes :: "operation list \<Rightarrow> bool" where
  "no_deletes ops = (filter is_delete ops = [])"

definition count_adds :: "operation list \<Rightarrow> nat" where
  "count_adds ops = length (filter is_add ops)"

definition adds :: "(Readings \<times> ContactFormData) list \<Rightarrow> operation list" where
  "adds xs = map (\<lambda>(env, contactData). Add env contactData) xs"

fun fresh_ids :: "Engine \<Rightarrow> ContactManager \<Rightarrow> operation list \<Rightarrow> bool" where
  \<comment> \<open>every \<open>Add\<close> of the sequence generates an id, the rounded sum that the
      constructor assigns, that no record of \<open>contacts\<close> has at that moment\<close>
  "fresh_ids js m [] = True"
| "fresh_ids js m (op # ops) =
     ((case op of
         Add env contactData \<Rightarrow>
           number_add (Date_now env) (Math_random env) \<notin> id' ` set (contacts m)
       | _ \<Rightarrow> True) \<and>
      fresh_ids js (step js m op) ops)"

definition snapshot_current :: "ContactManager \<Rightarrow> bool" where
  \<comment> \<open>the storage holds the snapshot of \<open>contacts\<close> (nothing stored: no contacts)\<close>
  "snapshot_current m =
     (case localStorage m of
        None \<Rightarrow> contacts m = []
      | Some contactsData \<Rightarrow> contactsData = map toJSON (contacts m))"

definition retrievable :: "ContactManager \<Rightarrow> Contact \<Rightarrow> bool" where
  \<comment> \<open>the linear scan \<open>this.contacts.find(c => c.id === id)\<close> for the record's id finds
      that record\<close>
  "retrievable m c = (find (\<lambda>x. id' x = id' c) (contacts m) = Some c)"


section \<open>The specification's wording\<close>

definition merge_field :: "JSString option \<Rightarrow> JSString \<Rightarrow> JSString" where
  \<comment> \<open>"if the incoming value is present and non-empty, replace the existing value;
      otherwise keep the existing value"\<close>
  "merge_field incoming existing =
     (if incoming \<noteq> None \<and> incoming \<noteq> Some [] then the incoming else existing)"



definition whitespace_only :: "JSString \<Rightarrow> bool" where
  \<comment> \<open>the query is empty or consists of white space only\<close>
  "whitespace_only q = list_all isWhiteSpace q"

definition spec_match :: "Engine \<Rightarrow> JSString \<Rightarrow> Contact \<Rightarrow> bool" where
  \<comment> \<open>the lowercased query is a substring of the lowercased first name, last name, user
      name or email, or of the phone as it is written\<close>
  "spec_match js q c =
     (sublist (toLowerCase js q) (toLowerCase js (firstName c)) \<or>
      sublist (toLowerCase js q) (toLowerCase js (lastName c)) \<or>
      sublist (toLowerCase js q) (toLowerCase js (userName c)) \<or>
      sublist (toLowerCase js q) (toLowerCase js (email c)) \<or>
      sublist (toLowerCase js q) (phone c))"

definition record_of :: "Readings \<Rightarrow> ContactFormData \<Rightarrow> Contact" where
  \<comment> \<open>the new record built from form data: the fields of the data, \<open>email\<close> and
      \<open>address\<close> empty when absent, the id and the creation time as generated\<close>
  "record_of env d =
     \<lparr> id' = number_add (Date_now env) (Math_random env),
       firstName = ContactFormData.firstName d,
       lastName = ContactFormData.lastName d,
       userName = ContactFormData.userName d,
       phone = ContactFormData.phone d,
       email = (case ContactFormData.email d of None \<Rightarrow> [] | Some e \<Rightarrow> e),
       address = (case ContactFormData.address d of None \<Rightarrow> [] | Some a \<Rightarrow> a),
       createdAt = new_Date env \<rparr>"


section \<open>Example values\<close>

text \<open>
  An engine for the examples. Its case mappings are those of Unicode on Basic Latin,
  Latin-1 Supplement and, for uppercase, the Deseret letters U+10428 to U+1044F; every
  other character is left as it is.
\<close>

definition encode :: "int \<Rightarrow> JSString" where
  \<comment> \<open>the UTF-16 text of a code point\<close>
  "encode cp =
     (if cp < 0x10000 then [of_int cp]
      else [of_int (0xD800 + (cp - 0x10000) div 0x400),
            of_int (0xDC00 + (cp - 0x10000) mod 0x400)])"

definition lower_unit :: "16 word \<Rightarrow> 16 word" where
  "lower_unit u =
     (if (0x41 \<le> u \<and> u \<le> 0x5A) \<or> (0xC0 \<le> u \<and> u \<le> 0xDE \<and> u \<noteq> 0xD7)
      then u + 0x20 else u)"

definition upper_point :: "int \<Rightarrow> JSString" where
  "upper_point cp =
     (if (0x61 \<le> cp \<and> cp \<le> 0x7A) \<or> (0xE0 \<le> cp \<and> cp \<le> 0xFE \<and> cp \<noteq> 0xF7)
      then encode (cp - 0x20)
      else if cp = 0xDF then [0x53, 0x53]
      else if cp = 0xFF then [0x178]
      else if cp = 0xB5 then [0x39C]
      else if 0x10428 \<le> cp \<and> cp \<le> 0x1044F then encode (cp - 0x28)
      else encode cp)"

definition excerpt :: Engine where
  "excerpt = \<lparr> toLowerCase = map lower_unit, Uppercase_Mapping = upper_point \<rparr>"

definition env0 :: Readings where
  "env0 = \<lparr> Date_now = 1700000000000, Math_random = 0.5, new_Date = 1700000000000 \<rparr>"

definition env1 :: Readings where
  "env1 = \<lparr> Date_now = 1700000000001, Math_random = 0.25, new_Date = 1700000000002 \<rparr>"

definition env2 :: Readings where
  \<comment> \<open>the millisecond of \<open>env1\<close>, another random value\<close>
  "env2 = \<lparr> Date_now = 1700000000001, Math_random = 0.25 + 1 / 2 ^ 14,
       new_Date = 1700000000001 \<rparr>"

definition jane :: ContactFormData where
  "jane = \<lparr> ContactFormData.firstName = str ''Jane'', ContactFormData.lastName = str ''Doe'',
       ContactFormData.userName = str ''jdoe'', ContactFormData.phone = str ''555-1234'',
       ContactFormData.email = None, ContactFormData.address = None \<rparr>"

definition bob :: ContactFormData where
  "bob = \<lparr> ContactFormData.firstName = str ''Bob'', ContactFormData.lastName = str ''Smith'',
       ContactFormData.userName = str ''bsmith'', ContactFormData.phone = str ''555-9876'',
       ContactFormData.email = Some (str ''Bob@Example.com''),
       ContactFormData.address = Some [] \<rparr>"

definition payload_doer :: PartialContactFormData where
  \<comment> \<open>\<open>{firstName: "", lastName: "Doer"}\<close>\<close>
  "payload_doer = \<lparr> PartialContactFormData.firstName = Some [],
       PartialContactFormData.lastName = Some (str ''Doer''),
       PartialContactFormData.userName = None, PartialContactFormData.phone = None,
       PartialContactFormData.email = None, PartialContactFormData.address = None \<rparr>"

definition empty_store :: ContactManager where
  \<comment> \<open>the manager of a first start: nothing is stored yet\<close>
  "empty_store = init (\<lambda>_. env0) None"

definition store_jane :: ContactManager where
  "store_jane = fst (addContact env0 empty_store jane)"

definition contact_jane :: Contact where
  "contact_jane = snd (addContact env0 empty_store jane)"

definition store_two :: ContactManager where
  "store_two = fst (addContact env1 store_jane bob)"

definition contact_bob :: Contact where
  "contact_bob = snd (addContact env1 store_jane bob)"

definition alice :: Contact where
  \<comment> \<open>the first name is alice, the last name begins with U+00C9 (E with acute)\<close>
  "alice = \<lparr> id' = 1, firstName = str ''alice'', lastName = 0xC9 # str ''lan'',
       userName = str ''al'', phone = str ''555-ABC'', email = [], address = [],
       createdAt = 0 \<rparr>"

definition store_alice :: ContactManager where
  "store_alice = \<lparr> contacts = [alice, contact_bob], currentEditId = None,
       filteredContacts = [], localStorage = Some [toJSON alice, toJSON contact_bob] \<rparr>"



definition browsing :: "operation list" where
  \<comment> \<open>two adds with different generated ids, a search, an update, a restart\<close>
  "browsing = [Add env0 jane, Add env1 bob, Search (str ''smith''),
       Update (1700000000000 + 0.5) payload_doer, Restart (\<lambda>_. env1)]"

definition session :: "operation list" where
  \<comment> \<open>the same, and then a delete\<close>
  "session = browsing @ [Delete (1700000000001 + 0.25)]"

definition two_adds :: "(Readings \<times> ContactFormData) list" where
  "two_adds = [(env0, jane), (env1, bob)]"

definition colliding_adds :: "(Readings \<times> ContactFormData) list" where
  \<comment> \<open>two adds for which the clock and the generator give the same readings\<close>
  "colliding_adds = [(env0, jane), (env0, bob)]"

definition rounding_adds :: "(Readings \<times> ContactFormData) list" where
  \<comment> \<open>two adds in one millisecond with different random values whose sums round to the
      same number\<close>
  "rounding_adds = [(env1, bob), (env2, jane)]"


section \<open>Auxiliary lemmas\<close>

subsection \<open>The rounding\<close>

lemma pow2_nonneg: "0 \<le> e \<Longrightarrow> pow2 e = 2 ^ nat e"
  by (simp add: pow2_def)

lemma pow2_neg: "e \<le> 0 \<Longrightarrow> pow2 e = 1 / 2 ^ nat (- e)"
  by (simp add: pow2_def)

lemma floor_bitlen_bounds:
  fixes y :: real
  assumes "1 \<le> y"
  shows "1 \<le> bitlen \<lfloor>y\<rfloor>" "2 ^ nat (bitlen \<lfloor>y\<rfloor> - 1) \<le> y" "y < 2 ^ nat (bitlen \<lfloor>y\<rfloor>)"
proof -
  let ?n = "\<lfloor>y\<rfloor>"
  from assms have n: "0 < ?n" by simp
  from bitlen_bounds[OF n] have b: "2 ^ nat (bitlen ?n - 1) \<le> ?n" "?n < 2 ^ nat (bitlen ?n)"
    by simp_all
  from n show "1 \<le> bitlen ?n" by (simp add: bitlen_alt_def)
  have "real_of_int (2 ^ nat (bitlen ?n - 1)) \<le> real_of_int ?n"
    using b(1) by (simp only: of_int_le_iff)
  also have "\<dots> \<le> y" by simp
  finally show "2 ^ nat (bitlen ?n - 1) \<le> y" by simp
  from b(2) have "?n + 1 \<le> 2 ^ nat (bitlen ?n)" by simp
  then have "real_of_int (?n + 1) \<le> real_of_int (2 ^ nat (bitlen ?n))"
    by (simp only: of_int_le_iff)
  then have "real_of_int ?n + 1 \<le> 2 ^ nat (bitlen ?n)" by simp
  moreover have "y < real_of_int ?n + 1" by linarith
  ultimately show "y < 2 ^ nat (bitlen ?n)" by linarith
qed

lemma exponent_bounds:
  assumes "0 < x"
  shows "pow2 (exponent x) \<le> x \<and> x < pow2 (exponent x + 1)"
proof (cases "1 \<le> x")
  case True
  from floor_bitlen_bounds[OF True] show ?thesis
    by (simp add: exponent_def True pow2_nonneg)
next
  case False
  define k where "k = bitlen \<lfloor>1 / x\<rfloor>"
  from False assms have y: "1 \<le> 1 / x" by simp
  from floor_bitlen_bounds[OF y] have
    k: "1 \<le> k" "2 ^ nat (k - 1) \<le> 1 / x" "1 / x < 2 ^ nat k"
    by (simp_all add: k_def)
  from k(2) assms have up: "x * 2 ^ nat (k - 1) \<le> 1"
    by (simp add: field_simps)
  from k(3) assms have lo: "1 < x * 2 ^ nat k"
    by (simp add: field_simps)
  have pk: "(2::real) ^ nat k = 2 * 2 ^ nat (k - 1)"
    using k(1) by (metis Suc_nat_eq_nat_zadd1 add.commute diff_add_cancel diff_ge_0_iff_ge power_Suc)
  show ?thesis
  proof (cases "x * 2 ^ nat (k - 1) = 1")
    case True
    then have x: "x = 1 / 2 ^ nat (k - 1)" by (simp add: field_simps)
    from True False have "k \<noteq> 1" by auto
    with k(1) have k2: "2 \<le> k" by simp
    then have e: "exponent x = 1 - k"
      using True False by (simp add: exponent_def k_def[symmetric])
    have "pow2 (1 - k) = 1 / 2 ^ nat (k - 1)"
      using k2 by (simp add: pow2_neg)
    with x have p1: "pow2 (1 - k) \<le> x" by simp
    have p2: "x < pow2 (2 - k)"
    proof (cases "k = 2")
      case True
      with False show ?thesis by (simp add: pow2_def)
    next
      case False
      with k2 have "pow2 (2 - k) = 1 / 2 ^ nat (k - 2)" by (simp add: pow2_neg)
      moreover have "(2::real) ^ nat (k - 1) = 2 * 2 ^ nat (k - 2)"
        using k2 by (metis Suc_nat_eq_nat_zadd1 add.commute diff_add_cancel diff_ge_0_iff_ge
            power_Suc diff_diff_eq one_add_one)
      ultimately have "x = pow2 (2 - k) / 2" "0 < pow2 (2 - k)"
        using x by simp_all
      then show ?thesis by linarith
    qed
    have "1 - k + 1 = 2 - k" by simp
    with p1 p2 show ?thesis by (simp only: e)
  next
    case ne: False
    then have e: "exponent x = - k"
      using False by (simp add: exponent_def k_def[symmetric])
    have "pow2 (- k) = 1 / 2 ^ nat k" using k(1) by (simp add: pow2_neg)
    moreover from lo have "1 / 2 ^ nat k < x" by (simp add: field_simps)
    ultimately have p1: "pow2 (- k) \<le> x" by simp
    have p2: "x < pow2 (1 - k)"
    proof (cases "k = 1")
      case True
      with False show ?thesis by (simp add: pow2_def)
    next
      case k1: False
      with k(1) have "pow2 (1 - k) = 1 / 2 ^ nat (k - 1)" by (simp add: pow2_neg)
      moreover from up ne have "x * 2 ^ nat (k - 1) < 1" by simp
      then have "x < 1 / 2 ^ nat (k - 1)" by (simp add: field_simps)
      ultimately show ?thesis by simp
    qed
    have "- k + 1 = 1 - k" by simp
    with p1 p2 show ?thesis by (simp only: e)
  qed
qed

lemma roundTiesToEven_nearest: "\<bar>of_int (roundTiesToEven y) - y\<bar> \<le> 1 / 2"
  by (auto simp: roundTiesToEven_def Let_def)

lemma pow2_pos: "0 < pow2 e"
  by (simp add: pow2_def)

lemma binary64_half_ulp:
  "\<bar>binary64 x - x\<bar> \<le> pow2 (exponent \<bar>x\<bar> - 52) / 2"
proof (cases "x = 0")
  case True
  then show ?thesis using pow2_pos[of "exponent 0 - 52"] by (simp add: binary64_def)
next
  case False
  define u where "u = pow2 (exponent \<bar>x\<bar> - 52)"
  define r where "r = real_of_int (roundTiesToEven (\<bar>x\<bar> / u))"
  have u: "0 < u" by (simp add: u_def pow2_pos)
  have "\<bar>r - \<bar>x\<bar> / u\<bar> \<le> 1 / 2"
    unfolding r_def by (rule roundTiesToEven_nearest)
  then have "\<bar>r - \<bar>x\<bar> / u\<bar> * u \<le> 1 / 2 * u"
    using u by (intro mult_right_mono) simp_all
  moreover have "\<bar>r - \<bar>x\<bar> / u\<bar> * u = \<bar>r * u - \<bar>x\<bar>\<bar>"
  proof -
    have "\<bar>r - \<bar>x\<bar> / u\<bar> * u = \<bar>(r - \<bar>x\<bar> / u) * u\<bar>"
      using u by (simp add: abs_mult)
    also have "(r - \<bar>x\<bar> / u) * u = r * u - \<bar>x\<bar>"
      using u by (simp add: left_diff_distrib)
    finally show ?thesis .
  qed
  ultimately have a: "\<bar>r * u - \<bar>x\<bar>\<bar> \<le> u / 2" by simp
  have "binary64 x - x = sgn x * (r * u - \<bar>x\<bar>)"
    using False by (simp add: binary64_def u_def[symmetric] r_def[symmetric] Let_def
        right_diff_distrib sgn_if)
  then have "\<bar>binary64 x - x\<bar> = \<bar>r * u - \<bar>x\<bar>\<bar>"
    using False by (simp add: abs_mult sgn_if)
  with a show ?thesis by (simp add: u_def)
qed

lemma binary64_representable:
  assumes "\<bar>x\<bar> / pow2 (exponent \<bar>x\<bar> - 52) = of_int n"
  shows "binary64 x = x"
proof (cases "x = 0")
  case True
  then show ?thesis by (simp add: binary64_def)
next
  case False
  have r: "roundTiesToEven (of_int n) = n"
    by (simp add: roundTiesToEven_def)
  from assms have "of_int n * pow2 (exponent \<bar>x\<bar> - 52) = \<bar>x\<bar>"
    using pow2_pos[of "exponent \<bar>x\<bar> - 52"] by (simp add: field_simps)
  then have "sgn x * of_int n * pow2 (exponent \<bar>x\<bar> - 52) = sgn x * \<bar>x\<bar>"
    by (simp add: mult.assoc)
  then show ?thesis
    using False by (simp add: binary64_def Let_def assms r sgn_if split: if_splits)
qed


subsection \<open>The operations\<close>

lemma js_or_merge_field: "js_or a b = merge_field a b"
  by (cases a) (simp_all add: js_or_def merge_field_def truthy_def)

lemma find_id_None: "i \<notin> id' ` set cs \<Longrightarrow> find (\<lambda>c. id' c = i) cs = None"
  by (induction cs) auto

lemma findIndex_id_None: "i \<notin> id' ` set cs \<Longrightarrow> findIndex (\<lambda>c. id' c = i) cs = None"
  by (induction cs) auto

lemma findIndex_id_Some:
  "i \<in> id' ` set cs \<Longrightarrow> \<exists>n. findIndex (\<lambda>c. id' c = i) cs = Some n"
  by (induction cs) auto

lemma findIndex_Some_split:
  "findIndex P xs = Some n \<Longrightarrow>
     \<exists>pre x post. xs = pre @ x # post \<and> P x \<and> (\<forall>y\<in>set pre. \<not> P y) \<and> length pre = n"
proof (induction xs arbitrary: n)
  case Nil
  then show ?case by simp
next
  case (Cons a xs)
  show ?case
  proof (cases "P a")
    case True
    with Cons.prems have "n = 0" by simp
    with True show ?thesis by (intro exI[of _ "[]"] exI[of _ a] exI[of _ xs]) simp
  next
    case False
    with Cons.prems obtain k where k: "findIndex P xs = Some k" "n = Suc k"
      by (auto split: if_splits)
    from Cons.IH[OF k(1)] obtain pre x post where
      "xs = pre @ x # post" "P x" "\<forall>y\<in>set pre. \<not> P y" "length pre = k" by blast
    with False k(2) show ?thesis
      by (intro exI[of _ "a # pre"] exI[of _ x] exI[of _ post]) simp
  qed
qed

lemma map_mutate_found:
  "(\<And>x. g (f x) = g x) \<Longrightarrow> map g (mutate_found P f xs) = map g xs"
  by (induction xs) auto

lemma filter_mutate_found:
  "(\<And>x. P (f x) = P x) \<Longrightarrow>
     filter (\<lambda>x. \<not> P x) (mutate_found P f xs) = filter (\<lambda>x. \<not> P x) xs"
  by (induction xs) auto

lemma find_mutate_found:
  "(\<And>x. P (f x) = P x) \<Longrightarrow> find P (mutate_found P f xs) = map_option f (find P xs)"
  by (induction xs) auto

lemma searchContacts_contacts: "contacts (searchContacts js m q) = contacts m"
  by (simp add: searchContacts_def Let_def)

lemma generated_ids:
  "number_add (Date_now env0) (Math_random env0) = 1700000000000 + 0.5"
  "number_add (Date_now env1) (Math_random env1) = 1700000000001 + 0.25"
  "number_add (Date_now env2) (Math_random env2) = 1700000000001 + 0.25"
  by code_simp+

lemma new_Date_eval: "new_Date env0 = 1700000000000" "new_Date env1 = 1700000000002"
  by (simp_all add: env0_def env1_def)

lemma updateContact_found:
  "find (\<lambda>x. id' x = i) (contacts m) = Some c \<Longrightarrow>
     snd (updateContact m i d) = Some (update c d) \<and>
     find (\<lambda>x. id' x = i) (contacts (fst (updateContact m i d))) = Some (update c d) \<and>
     filteredContacts (fst (updateContact m i d)) = contacts (fst (updateContact m i d)) \<and>
     localStorage (fst (updateContact m i d)) =
       Some (map toJSON (contacts (fst (updateContact m i d))))"
  using find_mutate_found[of "\<lambda>x. id' x = i" "\<lambda>c. update c d" "contacts m"]
  by (simp add: updateContact_def saveToStorage_def update_def)

lemma deleteContact_Some:
  "findIndex (\<lambda>c. id' c = i) (contacts m) = Some n \<Longrightarrow>
     deleteContact m i =
       (m\<lparr>contacts := splice1 n (contacts m), filteredContacts := splice1 n (contacts m),
          localStorage := Some (map toJSON (splice1 n (contacts m)))\<rparr>, True)"
  by (simp add: deleteContact_def saveToStorage_def)

lemma deleteContact_found:
  assumes "i \<in> id' ` set (contacts m)"
  shows "\<exists>pre c post. contacts m = pre @ c # post \<and> id' c = i \<and> i \<notin> id' ` set pre \<and>
           deleteContact m i =
             (m\<lparr>contacts := pre @ post, filteredContacts := pre @ post,
                localStorage := Some (map toJSON (pre @ post))\<rparr>, True)"
proof -
  from findIndex_id_Some[OF assms] obtain n where
    n: "findIndex (\<lambda>c. id' c = i) (contacts m) = Some n"
    by blast
  from findIndex_Some_split[OF n] obtain pre c post where
    s: "contacts m = pre @ c # post" "id' c = i" "\<forall>y\<in>set pre. id' y \<noteq> i" "length pre = n"
    by blast
  have "splice1 n (contacts m) = pre @ post"
    using s(1,4) by (simp add: splice1_def)
  then have "deleteContact m i =
      (m\<lparr>contacts := pre @ post, filteredContacts := pre @ post,
         localStorage := Some (map toJSON (pre @ post))\<rparr>, True)"
    by (simp add: deleteContact_Some[OF n])
  with s(1-3) show ?thesis
    by (intro exI[of _ pre] exI[of _ c] exI[of _ post]) auto
qed

lemma store_jane_eval:
  "contacts store_jane = [contact_jane]"
  "filteredContacts store_jane = [contact_jane]"
  "contact_jane = \<lparr> id' = 1700000000000 + 0.5, firstName = str ''Jane'',
       lastName = str ''Doe'', userName = str ''jdoe'', phone = str ''555-1234'',
       email = [], address = [], createdAt = 1700000000000 \<rparr>"
  by (simp_all add: store_jane_def contact_jane_def empty_store_def init_def loadContacts_def
      ContactManager_fields_def addContact_def new_Contact_def jane_def js_or_def
      default_arg_def saveToStorage_def Let_def generated_ids new_Date_eval)

lemma store_two_eval:
  "contacts store_two = [contact_jane, contact_bob]"
  "filteredContacts store_two = [contact_jane, contact_bob]"
  "contact_bob = \<lparr> id' = 1700000000001 + 0.25, firstName = str ''Bob'',
       lastName = str ''Smith'', userName = str ''bsmith'', phone = str ''555-9876'',
       email = str ''Bob@Example.com'', address = [], createdAt = 1700000000002 \<rparr>"
  by (simp_all add: store_two_def contact_bob_def store_jane_eval
      addContact_def new_Contact_def bob_def js_or_def truthy_def
      default_arg_def saveToStorage_def Let_def generated_ids new_Date_eval str_def)

lemma ids_differ: "id' contact_jane \<noteq> id' contact_bob"
  by (simp add: store_jane_eval store_two_eval)

lemma delete_jane_eval:
  "contacts (fst (deleteContact store_two (id' contact_jane))) = [contact_bob]"
  "contacts (fst (deleteContact store_jane (id' contact_jane))) = []"
  by (simp_all add: deleteContact_def store_jane_eval(1) store_two_eval(1) splice1_def
      saveToStorage_def)

lemma take_length_prefix: "(take (length t) s = t) = prefix t s"
  by (metis append_eq_conv_conj prefix_def take_is_prefix)

lemma js_includes_sublist: "js_includes s t = sublist t s"
  by (induction s) (simp_all add: sublist_Cons_right take_length_prefix del: take_Suc_Cons)

lemma trim_Nil: "(trim q = []) = list_all isWhiteSpace q"
proof -
  have "dropWhile isWhiteSpace (rev (dropWhile isWhiteSpace q)) = [] \<longleftrightarrow>
        dropWhile isWhiteSpace q = []"
  proof (cases "dropWhile isWhiteSpace q")
    case Nil
    show ?thesis unfolding Nil by simp
  next
    case (Cons a as)
    then have "\<not> isWhiteSpace a"
      by (metis hd_dropWhile list.sel(1) list.distinct(1))
    then have "dropWhile isWhiteSpace (rev (a # as)) \<noteq> []"
      by (auto simp: dropWhile_eq_Nil_conv)
    then show ?thesis by (simp only: Cons) simp
  qed
  then show ?thesis
    by (simp add: trim_def dropWhile_eq_Nil_conv list_all_iff)
qed

lemma matches_spec_match:
  assumes "conforming js" "q \<noteq> []"
  shows "matches js (toLowerCase js q) c = spec_match js q c"
proof -
  from assms have t: "toLowerCase js q \<noteq> []" and e: "toLowerCase js [] = []"
    by (simp_all add: conforming_def)
  show ?thesis
  proof (cases "email c = []")
    case True
    with t e show ?thesis
      by (simp add: matches_def spec_match_def js_includes_sublist truthy_def)
  next
    case False
    then show ?thesis
      by (simp add: matches_def spec_match_def js_includes_sublist truthy_def) blast
  qed
qed

lemma conforming_excerpt: "conforming excerpt"
  by (simp add: conforming_def excerpt_def)

lemma new_Contact_record_of:
  "new_Contact env (ContactFormData.firstName d) (ContactFormData.lastName d)
     (ContactFormData.userName d) (ContactFormData.phone d)
     (Some (js_or (ContactFormData.email d) [])) (Some (js_or (ContactFormData.address d) []))
   = record_of env d"
  by (simp add: new_Contact_def record_of_def default_arg_def js_or_def truthy_def
      split: option.splits)

lemma addContact_eq:
  "addContact env m d =
     (m\<lparr> contacts := contacts m @ [record_of env d],
         filteredContacts := contacts m @ [record_of env d],
         localStorage := Some (map toJSON (contacts m @ [record_of env d])) \<rparr>,
      record_of env d)"
  by (simp add: addContact_def new_Contact_record_of saveToStorage_def Let_def)

lemma addContacts_contacts:
  "contacts (fst (addContacts m xs)) = contacts m @ snd (addContacts m xs) \<and>
   length (snd (addContacts m xs)) = length xs \<and>
   snd (addContacts m xs) = map (\<lambda>(env, d). record_of env d) xs"
  by (induction xs arbitrary: m) (auto simp: addContact_eq case_prod_beta Let_def)

lemma init_None: "init envs None = ContactManager_fields None"
  by (simp add: init_def loadContacts_def ContactManager_fields_def)

lemma fromJSON_toJSON: "fromJSON env (toJSON c) = c"
  by (simp add: fromJSON_def toJSON_def new_Contact_def js_or_def default_arg_def truthy_def)

lemma load_map:
  "map (\<lambda>(i, data). fromJSON (envs i) data) (enumerate n (map toJSON cs)) = cs"
  by (induction cs arbitrary: n) (simp_all add: fromJSON_toJSON)

lemma init_Some:
  "init envs (Some (map toJSON cs)) =
     \<lparr> contacts = cs, currentEditId = None, filteredContacts = cs,
       localStorage = Some (map toJSON cs) \<rparr>"
  by (simp add: init_def loadContacts_def ContactManager_fields_def load_map)

lemma distinct_splice1: "distinct (map g xs) \<Longrightarrow> distinct (map g (splice1 n xs))"
proof (induction xs arbitrary: n)
  case Nil
  then show ?case by (simp add: splice1_def)
next
  case (Cons a xs)
  show ?case
  proof (cases n)
    case 0
    with Cons.prems show ?thesis by (simp add: splice1_def)
  next
    case (Suc k)
    have "set (splice1 k xs) \<subseteq> set xs"
      by (auto simp: splice1_def dest: in_set_takeD in_set_dropD)
    with Cons.prems Cons.IH[of k] Suc show ?thesis
      by (auto simp: splice1_def)
  qed
qed

lemma step_snapshot: "snapshot_current m \<Longrightarrow> snapshot_current (step js m op)"
proof (cases op)
  case (Add env d)
  then show ?thesis by (simp add: addContact_eq snapshot_current_def)
next
  case (Update i d)
  assume "snapshot_current m"
  with Update show ?thesis
    by (simp add: updateContact_def saveToStorage_def snapshot_current_def
        split: option.splits)
next
  case (Delete i)
  assume "snapshot_current m"
  with Delete show ?thesis
    by (simp add: deleteContact_def saveToStorage_def snapshot_current_def
        split: option.splits)
next
  case (Search q)
  assume "snapshot_current m"
  moreover have "contacts (searchContacts js m q) = contacts m"
    "localStorage (searchContacts js m q) = localStorage m"
    by (simp_all add: searchContacts_def Let_def)
  ultimately show ?thesis using Search
    by (simp add: snapshot_current_def split: option.splits)
next
  case (Restart envs)
  assume "snapshot_current m"
  with Restart show ?thesis
    by (cases "localStorage m")
      (simp_all add: snapshot_current_def init_Some init_None ContactManager_fields_def)
qed

lemma step_distinct:
  assumes "distinct (map id' (contacts m))" "snapshot_current m" "fresh_ids js m [op]"
  shows "distinct (map id' (contacts (step js m op)))"
proof (cases op)
  case (Add env d)
  with assms show ?thesis
    by (simp add: addContact_eq record_of_def image_iff)
next
  case (Update i d)
  have "map id' (mutate_found (\<lambda>c. id' c = i) (\<lambda>c. update c d) (contacts m))
        = map id' (contacts m)"
    by (rule map_mutate_found) (simp add: update_def)
  with assms Update show ?thesis
    by (simp add: updateContact_def saveToStorage_def split: option.splits)
next
  case (Delete i)
  have "distinct (map id' (splice1 n (contacts m)))" for n
    using assms(1) by (rule distinct_splice1)
  with assms Delete show ?thesis
    by (simp add: deleteContact_def saveToStorage_def split: option.splits)
next
  case (Search q)
  with assms show ?thesis
    by (simp add: searchContacts_contacts)
next
  case (Restart envs)
  with assms show ?thesis
    by (cases "localStorage m")
      (simp_all add: snapshot_current_def init_Some init_None ContactManager_fields_def)
qed

lemma run_invariant:
  "distinct (map id' (contacts m)) \<Longrightarrow> snapshot_current m \<Longrightarrow> fresh_ids js m ops \<Longrightarrow>
     distinct (map id' (contacts (run js m ops)))"
proof (induction ops arbitrary: m)
  case Nil
  then show ?case by simp
next
  case (Cons op ops)
  from Cons.prems have "fresh_ids js m [op]" "fresh_ids js (step js m op) ops" by simp_all
  with step_distinct[of m js op] step_snapshot[of m js op] Cons.prems(1,2)
    Cons.IH[of "step js m op"]
  show ?case by simp
qed

lemma step_length:
  assumes "snapshot_current m" "\<not> is_delete op"
  shows "length (contacts (step js m op)) = length (contacts m) + (if is_add op then 1 else 0)"
proof (cases op)
  case (Add env d)
  then show ?thesis by (simp add: addContact_eq)
next
  case (Update i d)
  have "map (\<lambda>_. ()) (mutate_found (\<lambda>c. id' c = i) (\<lambda>c. update c d) (contacts m))
        = map (\<lambda>_. ()) (contacts m)"
    by (rule map_mutate_found) simp
  then have "length (mutate_found (\<lambda>c. id' c = i) (\<lambda>c. update c d) (contacts m))
        = length (contacts m)"
    by (rule map_eq_imp_length_eq)
  with Update show ?thesis
    by (simp add: updateContact_def saveToStorage_def split: option.splits)
next
  case (Delete i)
  with assms(2) show ?thesis by simp
next
  case (Search q)
  then show ?thesis by (simp add: searchContacts_contacts)
next
  case (Restart envs)
  with assms(1) show ?thesis
    by (cases "localStorage m")
      (simp_all add: snapshot_current_def init_Some init_None ContactManager_fields_def)
qed

lemma run_length:
  "snapshot_current m \<Longrightarrow> no_deletes ops \<Longrightarrow>
     length (contacts (run js m ops)) = length (contacts m) + count_adds ops"
proof (induction ops arbitrary: m)
  case Nil
  then show ?case by (simp add: count_adds_def)
next
  case (Cons op ops)
  from Cons.prems(2) have nd: "\<not> is_delete op" "no_deletes ops"
    by (auto simp: no_deletes_def split: if_splits)
  from Cons.IH[OF step_snapshot[OF Cons.prems(1)] nd(2)] step_length[OF Cons.prems(1) nd(1)]
  show ?case by (simp add: count_adds_def)
qed

lemma browsing_eval: "no_deletes browsing" "count_adds browsing = 2"
  by (simp_all add: browsing_def no_deletes_def count_adds_def)

lemma run_adds: "run js m (adds xs) = fst (addContacts m xs)"
  by (induction xs arbitrary: m) (auto simp: adds_def case_prod_beta Let_def)

lemma find_distinct:
  "distinct (map g xs) \<Longrightarrow> c \<in> set xs \<Longrightarrow> find (\<lambda>x. g x = g c) xs = Some c"
  by (induction xs) (auto simp: image_iff)

lemma empty_store_eval:
  "empty_store = \<lparr> contacts = [], currentEditId = None, filteredContacts = [],
     localStorage = None \<rparr>"
  by (simp add: empty_store_def init_None ContactManager_fields_def)

lemma contacts_record_of:
  "contact_jane = record_of env0 jane" "contact_bob = record_of env1 bob"
  by (simp_all add: contact_jane_def contact_bob_def addContact_eq)

lemma search_eval:
  "(if whitespace_only (str ''SMITH'') then contacts store_two
    else filter (spec_match excerpt (str ''SMITH'')) (contacts store_two)) = [contact_bob]"
  "(if whitespace_only [0xA0, 0x20] then contacts store_two
    else filter (spec_match excerpt [0xA0, 0x20]) (contacts store_two))
     = [contact_jane, contact_bob]"
  "(if whitespace_only (str ''ALICE'') then contacts store_alice
    else filter (spec_match excerpt (str ''ALICE'')) (contacts store_alice)) = [alice]"
  "(if whitespace_only [0xE9] then contacts store_alice
    else filter (spec_match excerpt [0xE9]) (contacts store_alice)) = [alice]"
  "(if whitespace_only (str ''abc'') then contacts store_alice
    else filter (spec_match excerpt (str ''abc'')) (contacts store_alice)) = []"
  by code_simp+

lemma session_eval:
  "fresh_ids excerpt empty_store session"
  "contacts (run excerpt empty_store session) = [update contact_jane payload_doer]"
  by code_simp+

lemma two_adds_eval:
  "fresh_ids excerpt empty_store (adds two_adds)"
  "snd (addContacts empty_store two_adds) = [contact_jane, contact_bob]"
  by code_simp+

lemma rounded_sums_collide:
  "Math_random env2 \<noteq> Math_random env1"
  "number_add (Date_now env2) (Math_random env2) = number_add (Date_now env1) (Math_random env1)"
  "\<not> fresh_ids excerpt empty_store (adds rounding_adds)"
  "\<not> distinct (map id' (contacts (run excerpt empty_store (adds rounding_adds))))"
  by code_simp+



section \<open>The claims\<close>

text \<open>
  C1. \<open>Contact.update\<close> is a merge by truthiness: each of the six fields takes the
  incoming value exactly when that value is present and not the empty string, and keeps
  its old value otherwise. In particular \<open>updateContact(id, {firstName: "", lastName:
  "Doer"})\<close> on a record whose first name is Jane returns the record, still found under
  its id, with first name Jane and last name Doer.
\<close>

theorem update_merge_by_truthiness:
  "firstName (update c d) = merge_field (PartialContactFormData.firstName d) (firstName c) \<and>
   lastName (update c d) = merge_field (PartialContactFormData.lastName d) (lastName c) \<and>
   userName (update c d) = merge_field (PartialContactFormData.userName d) (userName c) \<and>
   phone (update c d) = merge_field (PartialContactFormData.phone d) (phone c) \<and>
   email (update c d) = merge_field (PartialContactFormData.email d) (email c) \<and>
   address (update c d) = merge_field (PartialContactFormData.address d) (address c) \<and>
   (find (\<lambda>x. id' x = i) (contacts m) = Some c \<and> firstName c = str ''Jane'' \<longrightarrow>
      (\<exists>c'. snd (updateContact m i payload_doer) = Some c' \<and>
            find (\<lambda>x. id' x = i) (contacts (fst (updateContact m i payload_doer))) = Some c' \<and>
            firstName c' = str ''Jane'' \<and> lastName c' = str ''Doer''))"
proof -
  have fields:
    "firstName (update c d) = merge_field (PartialContactFormData.firstName d) (firstName c) \<and>
     lastName (update c d) = merge_field (PartialContactFormData.lastName d) (lastName c) \<and>
     userName (update c d) = merge_field (PartialContactFormData.userName d) (userName c) \<and>
     phone (update c d) = merge_field (PartialContactFormData.phone d) (phone c) \<and>
     email (update c d) = merge_field (PartialContactFormData.email d) (email c) \<and>
     address (update c d) = merge_field (PartialContactFormData.address d) (address c)"
    by (simp add: update_def js_or_merge_field)
  have scenario: "\<exists>c'. snd (updateContact m i payload_doer) = Some c' \<and>
            find (\<lambda>x. id' x = i) (contacts (fst (updateContact m i payload_doer))) = Some c' \<and>
            firstName c' = str ''Jane'' \<and> lastName c' = str ''Doer''"
    if "find (\<lambda>x. id' x = i) (contacts m) = Some c" "firstName c = str ''Jane''"
    using updateContact_found[OF that(1), of payload_doer] that(2)
    by (simp add: update_def payload_doer_def js_or_def truthy_def) (simp add: str_def)
  from fields scenario show ?thesis by blast
qed

theorem update_merge_by_truthiness_witness:
  "find (\<lambda>x. id' x = id' contact_jane) (contacts store_jane) = Some contact_jane \<and>
   firstName contact_jane = str ''Jane'' \<and>
   (\<exists>c'. snd (updateContact store_jane (id' contact_jane) payload_doer) = Some c' \<and>
      find (\<lambda>x. id' x = id' contact_jane)
        (contacts (fst (updateContact store_jane (id' contact_jane) payload_doer))) = Some c' \<and>
      firstName c' = str ''Jane'' \<and> lastName c' = str ''Doer'')"
  using update_merge_by_truthiness[of contact_jane payload_doer "id' contact_jane" store_jane]
  by (simp add: store_jane_eval)

text \<open>
  C2. \<open>searchContacts\<close> leaves \<open>contacts\<close>, the edit id and the stored snapshot alone.
  It sets \<open>filteredContacts\<close> to all of \<open>contacts\<close> when the query is empty or white
  space only, and otherwise to the records of \<open>contacts\<close>, in their order, for which
  the lowercased query is a substring of the lowercased first name, last name, user name
  or email, or of the phone as written. This holds for every engine whose
  \<open>toLowerCase\<close> gives the empty string for the empty string only.
\<close>

theorem search_spec:
  "conforming js \<Longrightarrow>
   contacts (searchContacts js m q) = contacts m \<and>
   localStorage (searchContacts js m q) = localStorage m \<and>
   currentEditId (searchContacts js m q) = currentEditId m \<and>
   filteredContacts (searchContacts js m q) =
     (if whitespace_only q then contacts m else filter (spec_match js q) (contacts m)) \<and>
   subseq (filteredContacts (searchContacts js m q)) (contacts m)"
proof -
  assume js: "conforming js"
  have ne: "q \<noteq> []" if "\<not> whitespace_only q"
    using that by (auto simp: whitespace_only_def)
  have f: "filteredContacts (searchContacts js m q) =
     (if whitespace_only q then contacts m else filter (spec_match js q) (contacts m))"
  proof (cases "whitespace_only q")
    case True
    then show ?thesis
      by (simp add: searchContacts_def truthy_def trim_Nil whitespace_only_def)
  next
    case False
    from ne[OF False] have "filter (matches js (toLowerCase js q)) (contacts m) =
        filter (spec_match js q) (contacts m)"
      by (intro filter_cong refl) (simp add: matches_spec_match[OF js])
    with False show ?thesis
      by (simp add: searchContacts_def truthy_def trim_Nil whitespace_only_def)
  qed
  have s: "subseq (filteredContacts (searchContacts js m q)) (contacts m)"
    by (simp add: f)
  show ?thesis
    using f s by (simp add: searchContacts_def Let_def)
qed

theorem search_spec_witness:
  "conforming excerpt \<and>
   filteredContacts (searchContacts excerpt store_two (str ''SMITH'')) = [contact_bob] \<and>
   filteredContacts (searchContacts excerpt store_two [0xA0, 0x20])
     = [contact_jane, contact_bob] \<and>
   filteredContacts (searchContacts excerpt store_alice (str ''ALICE'')) = [alice] \<and>
   filteredContacts (searchContacts excerpt store_alice [0xE9]) = [alice] \<and>
   filteredContacts (searchContacts excerpt store_alice (str ''abc'')) = [] \<and>
   contacts (searchContacts excerpt store_alice (str ''abc'')) = [alice, contact_bob]"
  using search_spec[OF conforming_excerpt, of store_two "str ''SMITH''"]
    search_spec[OF conforming_excerpt, of store_two "[0xA0, 0x20]"]
    search_spec[OF conforming_excerpt, of store_alice "str ''ALICE''"]
    search_spec[OF conforming_excerpt, of store_alice "[0xE9]"]
    search_spec[OF conforming_excerpt, of store_alice "str ''abc''"]
  unfolding search_eval by (simp add: store_alice_def conforming_excerpt)

text \<open>
  C3. For an id that no record of \<open>contacts\<close> has, \<open>updateContact\<close> returns \<open>null\<close> and
  \<open>deleteContact\<close> returns \<open>false\<close>, and the whole state (\<open>contacts\<close>,
  \<open>filteredContacts\<close>, the edit id and the stored snapshot) is as before.
\<close>

theorem not_found_no_effect:
  "i \<notin> id' ` set (contacts m) \<Longrightarrow>
     updateContact m i d = (m, None) \<and> deleteContact m i = (m, False)"
  by (simp add: updateContact_def deleteContact_def find_id_None findIndex_id_None)

theorem not_found_no_effect_witness:
  "0 \<notin> id' ` set (contacts store_two) \<and>
   updateContact store_two 0 payload_doer = (store_two, None) \<and>
   deleteContact store_two 0 = (store_two, False)"
  using not_found_no_effect[of 0 store_two payload_doer]
  by (simp add: store_jane_eval store_two_eval)

text \<open>
  C4. \<open>addContact\<close> appends one record, built from the form data with \<open>email\<close> and
  \<open>address\<close> empty when absent, to the end of \<open>contacts\<close>; it sets \<open>filteredContacts\<close>
  to all of \<open>contacts\<close>, stores the snapshot and returns the record. From the empty
  store of a first start, N adds give N contacts and a count of N, also when searches,
  updates and restarts (but no deletes) come between them.
\<close>

theorem add_appends:
  "snd (addContact env m d) = record_of env d \<and>
   contacts (fst (addContact env m d)) = contacts m @ [record_of env d] \<and>
   filteredContacts (fst (addContact env m d)) = contacts (fst (addContact env m d)) \<and>
   localStorage (fst (addContact env m d)) =
     Some (map toJSON (contacts (fst (addContact env m d)))) \<and>
   currentEditId (fst (addContact env m d)) = currentEditId m \<and>
   contacts (init envs None) = [] \<and>
   length (contacts (fst (addContacts (init envs None) xs))) = length xs \<and>
   getCount (fst (addContacts (init envs None) xs)) = length xs \<and>
   (no_deletes ops \<longrightarrow>
      length (contacts (run js (init envs None) ops)) = count_adds ops \<and>
      getCount (run js (init envs None) ops) = count_adds ops)"
proof -
  have s: "snapshot_current (init envs None)" "contacts (init envs None) = []"
    by (simp_all add: init_None ContactManager_fields_def snapshot_current_def)
  have "length (contacts (run js (init envs None) ops)) = count_adds ops" if "no_deletes ops"
    using run_length[OF s(1) that, of js] by (simp add: s(2))
  then show ?thesis
    using addContacts_contacts[of "init envs None" xs]
    by (simp add: addContact_eq getCount_def s(2))
qed

theorem add_appends_witness:
  "snd (addContact env1 store_jane bob) = contact_bob \<and>
   contacts (fst (addContact env1 store_jane bob)) = [contact_jane, contact_bob] \<and>
   filteredContacts (fst (addContact env1 (searchContacts excerpt store_jane (str ''xyz'')) bob))
     = [contact_jane, contact_bob] \<and>
   getCount (fst (addContacts empty_store two_adds)) = 2 \<and>
   no_deletes browsing \<and>
   getCount (run excerpt empty_store browsing) = 2"
  using add_appends[of env1 store_jane bob "\<lambda>_. env0" two_adds browsing excerpt]
    add_appends[of env1 "searchContacts excerpt store_jane (str ''xyz'')" bob "\<lambda>_. env0"
      "[]" "[]" excerpt]
  by (simp add: contacts_record_of store_jane_eval(1) searchContacts_contacts
      empty_store_def two_adds_def browsing_eval)

text \<open>
  C5. Storing the contacts and loading them back, in the same manager or in one
  constructed anew over the storage, gives the same records in the same order: ids,
  creation times and the six strings are those stored, whatever the constructor reads
  from the clock and the generator while loading.
\<close>

theorem save_load_roundtrip:
  "contacts (loadContacts envs (saveToStorage m)) = contacts m \<and>
   filteredContacts (loadContacts envs (saveToStorage m)) = contacts m \<and>
   contacts (init envs (localStorage (saveToStorage m))) = contacts m \<and>
   map id' (contacts (init envs (localStorage (saveToStorage m)))) = map id' (contacts m) \<and>
   map createdAt (contacts (init envs (localStorage (saveToStorage m)))) =
     map createdAt (contacts m) \<and>
   length (contacts (init envs (localStorage (saveToStorage m)))) = length (contacts m)"
  by (simp add: saveToStorage_def init_Some) (simp add: loadContacts_def load_map)

theorem save_load_roundtrip_witness:
  "contacts (init (\<lambda>_. env0) (localStorage (saveToStorage store_two)))
     = [contact_jane, contact_bob] \<and>
   map id' (contacts (init (\<lambda>_. env0) (localStorage (saveToStorage store_two))))
     = [1700000000000 + 0.5, 1700000000001 + 0.25]"
  using save_load_roundtrip[of "\<lambda>_. env0" store_two]
  by (simp add: store_two_eval(1)) (simp add: store_jane_eval(3) store_two_eval(3))

text \<open>
  C6. \<open>updateContact\<close> leaves the id and the creation time of every record as they
  were, position by position, so it neither reorders, adds nor removes a record; the
  records whose id is not the one asked for are untouched.
\<close>

theorem update_frame:
  "id' (update c d) = id' c \<and> createdAt (update c d) = createdAt c \<and>
   map id' (contacts (fst (updateContact m i d))) = map id' (contacts m) \<and>
   map createdAt (contacts (fst (updateContact m i d))) = map createdAt (contacts m) \<and>
   length (contacts (fst (updateContact m i d))) = length (contacts m) \<and>
   filter (\<lambda>x. id' x \<noteq> i) (contacts (fst (updateContact m i d))) =
     filter (\<lambda>x. id' x \<noteq> i) (contacts m)"
proof -
  have a: "\<And>x. id' (update x d) = id' x" "\<And>x. createdAt (update x d) = createdAt x"
    by (simp_all add: update_def)
  have b: "filter (\<lambda>x. \<not> id' x = i)
             (mutate_found (\<lambda>c. id' c = i) (\<lambda>c. update c d) (contacts m))
           = filter (\<lambda>x. \<not> id' x = i) (contacts m)"
    by (rule filter_mutate_found) (simp add: a)
  show ?thesis
    using b map_mutate_found[of id' "\<lambda>c. update c d" "\<lambda>c. id' c = i" "contacts m"]
      map_mutate_found[of createdAt "\<lambda>c. update c d" "\<lambda>c. id' c = i" "contacts m"]
      map_mutate_found[of "\<lambda>_. ()" "\<lambda>c. update c d" "\<lambda>c. id' c = i" "contacts m"]
    by (auto simp: a updateContact_def saveToStorage_def Let_def split: option.splits
        dest: map_eq_imp_length_eq)
qed

text \<open>
  C7, as amended. The program does not check that a generated id is new. In every state
  reached from the empty store of a first start by operations in which each add
  generates an id, the rounded sum \<open>Date.now() + Math.random()\<close>, that no record of
  \<open>contacts\<close> has at that moment, the ids of the records are pairwise distinct; and after
  a sequence of such adds each added record is the one that the linear scan of
  \<open>contacts\<close> for its id finds.
\<close>

theorem distinct_ids_when_fresh:
  "(fresh_ids js (init envs None) ops \<longrightarrow>
      distinct (map id' (contacts (run js (init envs None) ops)))) \<and>
   (fresh_ids js (init envs None) (adds xs) \<longrightarrow>
      list_all (retrievable (fst (addContacts (init envs None) xs)))
        (snd (addContacts (init envs None) xs)))"
proof (intro conjI impI)
  have i: "distinct (map id' (contacts (init envs None)))" "snapshot_current (init envs None)"
    by (simp_all add: init_None ContactManager_fields_def snapshot_current_def)
  show "distinct (map id' (contacts (run js (init envs None) ops)))"
    if "fresh_ids js (init envs None) ops"
    using run_invariant[OF i that] .
  show "list_all (retrievable (fst (addContacts (init envs None) xs)))
          (snd (addContacts (init envs None) xs))"
    if f: "fresh_ids js (init envs None) (adds xs)"
  proof -
    have d: "distinct (map id' (contacts (fst (addContacts (init envs None) xs))))"
      using run_invariant[OF i f] by (simp add: run_adds)
    have "set (snd (addContacts (init envs None) xs)) \<subseteq>
          set (contacts (fst (addContacts (init envs None) xs)))"
      using addContacts_contacts[of "init envs None" xs] by simp
    with d show ?thesis
      by (auto simp: list_all_iff retrievable_def intro: find_distinct)
  qed
qed

theorem distinct_ids_when_fresh_witness:
  "fresh_ids excerpt empty_store session \<and>
   distinct (map id' (contacts (run excerpt empty_store session))) \<and>
   fresh_ids excerpt empty_store (adds two_adds) \<and>
   retrievable (fst (addContacts empty_store two_adds)) contact_jane \<and>
   retrievable (fst (addContacts empty_store two_adds)) contact_bob"
  using distinct_ids_when_fresh[of excerpt "\<lambda>_. env0" session two_adds,
      folded empty_store_def]
  by (simp add: session_eval(1) two_adds_eval(1,2))

theorem duplicate_ids_reachable:
  "\<not> distinct (map id' (contacts (run excerpt empty_store (adds colliding_adds)))) \<and>
   snd (addContacts empty_store colliding_adds) = [record_of env0 jane, record_of env0 bob] \<and>
   \<not> retrievable (fst (addContacts empty_store colliding_adds)) (record_of env0 bob)"
  by (simp add: run_adds colliding_adds_def addContact_eq empty_store_eval retrievable_def)
     (simp add: record_of_def jane_def bob_def str_def)

text \<open>
  C8. For an id that some record of \<open>contacts\<close> has, \<open>deleteContact\<close> removes the
  first record with that id and nothing else: the records before and after it stay, in
  their order; the snapshot of the remaining records is stored and the result is
  \<open>true\<close>. Deleting the only record leaves the store empty, with count 0.
\<close>

theorem delete_removes_record:
  "(i \<in> id' ` set (contacts m) \<longrightarrow>
      (\<exists>pre c post. contacts m = pre @ c # post \<and> id' c = i \<and> i \<notin> id' ` set pre \<and>
         contacts (fst (deleteContact m i)) = pre @ post \<and>
         localStorage (fst (deleteContact m i)) = Some (map toJSON (pre @ post)) \<and>
         snd (deleteContact m i) = True)) \<and>
   (contacts m = [c] \<longrightarrow>
      contacts (fst (deleteContact m (id' c))) = [] \<and>
      getCount (fst (deleteContact m (id' c))) = 0 \<and>
      snd (deleteContact m (id' c)) = True)"
proof (intro conjI impI)
  assume "i \<in> id' ` set (contacts m)"
  from deleteContact_found[OF this] obtain pre c post where
    "contacts m = pre @ c # post" "id' c = i" "i \<notin> id' ` set pre"
    "deleteContact m i =
       (m\<lparr>contacts := pre @ post, filteredContacts := pre @ post,
          localStorage := Some (map toJSON (pre @ post))\<rparr>, True)"
    by blast
  then show "\<exists>pre c post. contacts m = pre @ c # post \<and> id' c = i \<and> i \<notin> id' ` set pre \<and>
         contacts (fst (deleteContact m i)) = pre @ post \<and>
         localStorage (fst (deleteContact m i)) = Some (map toJSON (pre @ post)) \<and>
         snd (deleteContact m i) = True"
    by (intro exI[of _ pre] exI[of _ c] exI[of _ post]) simp
next
  assume "contacts m = [c]"
  then have d: "deleteContact m (id' c) =
      (m\<lparr>contacts := [], filteredContacts := [], localStorage := Some []\<rparr>, True)"
    by (simp add: deleteContact_def splice1_def saveToStorage_def)
  show "contacts (fst (deleteContact m (id' c))) = []" by (simp add: d)
  show "getCount (fst (deleteContact m (id' c))) = 0" by (simp add: d getCount_def)
  show "snd (deleteContact m (id' c)) = True" by (simp add: d)
qed

theorem delete_removes_record_witness:
  "id' contact_jane \<in> id' ` set (contacts store_two) \<and>
   contacts (fst (deleteContact store_two (id' contact_jane))) = [contact_bob] \<and>
   snd (deleteContact store_two (id' contact_jane)) = True \<and>
   contacts store_jane = [contact_jane] \<and>
   contacts (fst (deleteContact store_jane (id' contact_jane))) = [] \<and>
   getCount (fst (deleteContact store_jane (id' contact_jane))) = 0"
  using delete_removes_record[of "id' contact_jane" store_two contact_jane]
    delete_removes_record[of "id' contact_jane" store_jane contact_jane]
  by (auto simp: store_jane_eval(1) store_two_eval(1) delete_jane_eval)




text \<open>
  C10. A successful \<open>deleteContact\<close> sets \<open>filteredContacts\<close> to the contacts that
  remain, whatever search was shown before: the filter is cleared, as it is after an add
  or an update.
\<close>

theorem delete_resets_filter:
  "i \<in> id' ` set (contacts m) \<Longrightarrow>
     snd (deleteContact m i) = True \<and>
     filteredContacts (fst (deleteContact m i)) = contacts (fst (deleteContact m i)) \<and>
     filteredContacts (fst (deleteContact (searchContacts js m q) i)) =
       contacts (fst (deleteContact m i))"
proof -
  assume a: "i \<in> id' ` set (contacts m)"
  from findIndex_id_Some[OF a] obtain n where
    n: "findIndex (\<lambda>c. id' c = i) (contacts m) = Some n" by blast
  then have n': "findIndex (\<lambda>c. id' c = i) (contacts (searchContacts js m q)) = Some n"
    by (simp add: searchContacts_contacts)
  show ?thesis
    by (simp add: deleteContact_Some[OF n] deleteContact_Some[OF n'] searchContacts_contacts)
qed

theorem delete_resets_filter_witness:
  "id' contact_jane \<in> id' ` set (contacts store_two) \<and>
   snd (deleteContact store_two (id' contact_jane)) = True \<and>
   filteredContacts (fst (deleteContact store_two (id' contact_jane))) = [contact_bob] \<and>
   filteredContacts
     (fst (deleteContact (searchContacts excerpt store_two (str ''jane'')) (id' contact_jane)))
     = [contact_bob]"
  using delete_resets_filter[of "id' contact_jane" store_two excerpt "str ''jane''"]
  by (simp add: store_two_eval(1) delete_jane_eval)

end
